theory Spec2Isabelle
  imports Main "HOL-Library.AList"
begin

section \<open>JavaScript strings\<close>

text \<open>
  A JavaScript string is a sequence of UTF-16 code units. Text typed by the user is
  modelled as the list of its code units, so that \<open>String.prototype.trim\<close> can be
  given its full set of white space and line terminators. Fixed texts of the program
  (messages, literals) are written as HOL strings and converted with \<open>js\<close>.
\<close>

type_synonym js_string = "nat list"

definition js :: "string \<Rightarrow> js_string" where
  "js s = map of_char s"

text \<open>
  ECMAScript \<open>WhiteSpace\<close> (TAB, VT, FF, SP, NBSP, ZWNBSP and category Zs) and
  \<open>LineTerminator\<close> (LF, CR, LS, PS): the code units that \<open>trim\<close> strips.
\<close>

definition is_js_space :: "nat \<Rightarrow> bool" where
  "is_js_space c \<longleftrightarrow>
     c = 0x09 \<or> c = 0x0A \<or> c = 0x0B \<or> c = 0x0C \<or> c = 0x0D \<or> c = 0x20 \<or>
     c = 0xA0 \<or> c = 0x1680 \<or> (0x2000 \<le> c \<and> c \<le> 0x200A) \<or>
     c = 0x2028 \<or> c = 0x2029 \<or> c = 0x202F \<or> c = 0x205F \<or> c = 0x3000 \<or>
     c = 0xFEFF"

definition trim :: "js_string \<Rightarrow> js_string" where
  "trim s = rev (dropWhile is_js_space (rev (dropWhile is_js_space s)))"

section \<open>AddColumnModal\<close>

text \<open>
  The character classes of the regular expression \<open>/^[a-zA-Z_][a-zA-Z0-9_]*$/\<close>
  (no flags: case sensitive, \<open>$\<close> is the end of the input).
\<close>

definition is_ident_start :: "nat \<Rightarrow> bool" where
  "is_ident_start c \<longleftrightarrow>
     (0x61 \<le> c \<and> c \<le> 0x7A) \<or> (0x41 \<le> c \<and> c \<le> 0x5A) \<or> c = 0x5F"

definition is_ident_char :: "nat \<Rightarrow> bool" where
  "is_ident_char c \<longleftrightarrow>
     (0x61 \<le> c \<and> c \<le> 0x7A) \<or> (0x41 \<le> c \<and> c \<le> 0x5A) \<or>
     (0x30 \<le> c \<and> c \<le> 0x39) \<or> c = 0x5F"

text \<open>The star of the expression: consume class members, then demand the end.\<close>

fun ident_rest :: "js_string \<Rightarrow> bool" where
  "ident_rest [] = True"
| "ident_rest (c # cs) = (is_ident_char c \<and> ident_rest cs)"

text \<open>\<open>/^[a-zA-Z_][a-zA-Z0-9_]*$/.test(s)\<close>\<close>

fun test_identifier :: "js_string \<Rightarrow> bool" where
  "test_identifier [] = False"
| "test_identifier (c # cs) = (is_ident_start c \<and> ident_rest cs)"

text \<open>
  The identifier as the comment in the source words it: letters, numbers, underscores,
  starts with letter or underscore.
\<close>

definition valid_identifier :: "js_string \<Rightarrow> bool" where
  "valid_identifier s \<longleftrightarrow>
     s \<noteq> [] \<and> is_ident_start (hd s) \<and> list_all is_ident_char s"

record ColumnDefinition =
  cd_name :: js_string
  cd_type :: js_string
  cd_nullable :: bool
  cd_defaultValue :: js_string

text \<open>The five \<open>useState\<close> cells of the component.\<close>

record modal_state =
  name :: js_string
  type :: js_string
  nullable :: bool
  defaultValue :: js_string
  error :: string

text \<open>
  \<open>handleSubmit\<close> of AddColumnModal. The result is the component state after the
  handler and the list of arguments \<open>onAdd\<close> was called with, in order.
\<close>

definition handleSubmit :: "modal_state \<Rightarrow> modal_state \<times> ColumnDefinition list" where
  "handleSubmit st =
     (let st1 = st\<lparr>error := ''''\<rparr> in
      if trim (name st1) = [] then
        (st1\<lparr>error := ''Column name is required''\<rparr>, [])
      else if \<not> test_identifier (trim (name st1)) then
        (st1\<lparr>error := ''Column name must start with a letter or underscore and contain only letters, numbers, and underscores''\<rparr>, [])
      else
        (st1\<lparr>name := [], type := js ''text'', nullable := True, defaultValue := []\<rparr>,
         [\<lparr>cd_name = trim (name st1), cd_type = type st1, cd_nullable = nullable st1,
           cd_defaultValue = trim (defaultValue st1)\<rparr>]))"

section \<open>The chat backend\<close>

text \<open>
  \<open>backend/server.ts\<close> as given in \<open>docs/CLI-SDK-ROUTING-PLAN.md\<close>: the handler of
  \<open>POST /api/chat\<close> reads the conversation of the session, spawns the agent and
  registers three handlers on the subprocess: \<open>stdout.on('data')\<close>,
  \<open>stderr.on('data')\<close> and \<open>on('close')\<close>.
\<close>

datatype role = User | Assistant

record message =
  role :: role
  content :: js_string

text \<open>The events of the response stream, and what the handler does to the response.\<close>

datatype sse_event = Chunk js_string | Done js_string | Error string

datatype res_action = Write sse_event | End

type_synonym response = "res_action list"

text \<open>
  \<open>res.write\<close> and \<open>res.end\<close>. The response is the list of what reached the
  caller; a stream that has ended delivers nothing more.
\<close>

definition res_write :: "sse_event \<Rightarrow> response \<Rightarrow> response" where
  "res_write e r = (if End \<in> set r then r else r @ [Write e])"

definition res_end :: "response \<Rightarrow> response" where
  "res_end r = (if End \<in> set r then r else r @ [End])"

text \<open>The table \<open>conversations\<close>: \<open>session_id\<close> to the parsed \<open>messages\<close> column.\<close>

type_synonym conversations = "js_string \<rightharpoonup> message list"

text \<open>
  The call \<open>spawn('claude', ['-p', fullPrompt], {env: {...process.env, NO_COLOR: '1'}})\<close>.
  The options object has the one key \<open>env\<close>; \<open>timeout\<close> is the option of
  \<open>child_process.spawn\<close> that the call leaves unset.
\<close>

record spawn_call =
  command :: string
  args :: "js_string list"
  env_NO_COLOR :: string
  timeout :: "nat option"

text \<open>The variables one request closes over.\<close>

record chat =
  sessionId :: js_string
  history :: "message list"
  responseContent :: js_string
  res :: response
  claude :: spawn_call

text \<open>What all requests share: the database and the error console.\<close>

record backend =
  db :: conversations
  console :: "(string \<times> js_string) list"

text \<open>
  The body of the handler up to the registration of the subprocess handlers.
  \<open>buildPromptWithHistory\<close> is not defined in the document and is a parameter.
\<close>

definition post_chat ::
  "(message list \<Rightarrow> js_string) \<Rightarrow> js_string \<Rightarrow> js_string \<Rightarrow> conversations \<Rightarrow> chat" where
  "post_chat buildPromptWithHistory msg sid d =
     (let h = (case d sid of None \<Rightarrow> [] | Some ms \<Rightarrow> ms) @ [\<lparr>role = User, content = msg\<rparr>];
          fullPrompt = buildPromptWithHistory h
      in \<lparr>sessionId = sid, history = h, responseContent = [], res = [],
          claude = \<lparr>command = ''claude'', args = [js ''-p'', fullPrompt],
                    env_NO_COLOR = ''1'', timeout = None\<rparr>\<rparr>)"

text \<open>
  What the subprocess does, as the handlers see it. The code of \<open>close\<close> is
  \<open>None\<close> when the subprocess was ended by a signal (\<open>code === null\<close>).
\<close>

datatype proc_event = StdoutData js_string | StderrData js_string | Close "int option"

fun on_event :: "proc_event \<Rightarrow> chat \<times> backend \<Rightarrow> chat \<times> backend" where
  "on_event (StdoutData text) (c, b) =
     (c\<lparr>responseContent := responseContent c @ text,
        res := res_write (Chunk text) (res c)\<rparr>, b)"
| "on_event (StderrData text) (c, b) =
     (c, b\<lparr>console := console b @ [(''Claude stderr:'', text)]\<rparr>)"
| "on_event (Close code) (c, b) =
     (if code = Some 0 then
        let h = history c @ [\<lparr>role = Assistant, content = responseContent c\<rparr>]
        in (c\<lparr>history := h,
              res := res_end (res_write (Done (responseContent c)) (res c))\<rparr>,
            b\<lparr>db := (db b)(sessionId c \<mapsto> h)\<rparr>)
      else
        (c\<lparr>res := res_end (res_write (Error ''Claude process failed'') (res c))\<rparr>, b))"

text \<open>One request, from the spawn on: the handlers run in the order of the events.\<close>

definition run :: "proc_event list \<Rightarrow> chat \<times> backend \<Rightarrow> chat \<times> backend" where
  "run evs s = fold on_event evs s"

text \<open>Readers of a trace and of a response, used to state the properties.\<close>

fun stdout_of :: "proc_event list \<Rightarrow> js_string list" where
  "stdout_of [] = []"
| "stdout_of (StdoutData t # evs) = t # stdout_of evs"
| "stdout_of (_ # evs) = stdout_of evs"

fun stderr_of :: "proc_event list \<Rightarrow> js_string list" where
  "stderr_of [] = []"
| "stderr_of (StderrData t # evs) = t # stderr_of evs"
| "stderr_of (_ # evs) = stderr_of evs"

fun is_close :: "proc_event \<Rightarrow> bool" where
  "is_close (Close _) = True"
| "is_close _ = False"

fun is_failed_close :: "proc_event \<Rightarrow> bool" where
  "is_failed_close (Close code) = (code \<noteq> Some 0)"
| "is_failed_close e = False"

fun is_terminal :: "sse_event \<Rightarrow> bool" where
  "is_terminal (Chunk _) = False"
| "is_terminal _ = True"

fun is_chunk_write :: "res_action \<Rightarrow> bool" where
  "is_chunk_write (Write (Chunk t)) = True"
| "is_chunk_write a = False"

fun is_error_write :: "res_action \<Rightarrow> bool" where
  "is_error_write (Write (Error m)) = True"
| "is_error_write a = False"

definition terminal_of :: "int option \<Rightarrow> js_string \<Rightarrow> sse_event" where
  "terminal_of code out = (if code = Some 0 then Done out else Error ''Claude process failed'')"

text \<open>
  A complete stream: chunk events, then one terminal event, then the end of the
  response, and nothing else.
\<close>

fun complete_stream :: "response \<Rightarrow> bool" where
  "complete_stream (Write (Chunk t) # r) = complete_stream r"
| "complete_stream [Write (Done t), End] = True"
| "complete_stream [Write (Error m), End] = True"
| "complete_stream r = False"

text \<open>A prompt builder to run the handler with: the contents of the turns, joined.\<close>

definition plain_prompt :: "message list \<Rightarrow> js_string" where
  "plain_prompt h = concat (map content h)"

text \<open>A first request of a session, on an empty database.\<close>

definition sample_chat :: chat where
  "sample_chat = post_chat plain_prompt (js ''q'') (js ''s1'') Map.empty"

definition sample_backend :: backend where
  "sample_backend = \<lparr>db = Map.empty, console = []\<rparr>"

section \<open>The backend under several requests\<close>

text \<open>
  The server process: the shared database and console, and the requests it has
  accepted, each with its own subprocess. A request is handled as soon as it arrives;
  an event of the subprocess of request \<open>i\<close> runs the handler of that request.
\<close>

record server = backend +
  tasks :: "chat list"

datatype server_event = PostChat js_string js_string | Proc nat proc_event

fun serve :: "(message list \<Rightarrow> js_string) \<Rightarrow> server_event \<Rightarrow> server \<Rightarrow> server" where
  "serve bp (PostChat msg sid) srv = srv\<lparr>tasks := tasks srv @ [post_chat bp msg sid (db srv)]\<rparr>"
| "serve bp (Proc i e) srv =
     (if i < length (tasks srv) then
        (case on_event e (tasks srv ! i, \<lparr>db = db srv, console = console srv\<rparr>) of
           (c, b) \<Rightarrow> \<lparr>db = db b, console = console b, tasks = (tasks srv)[i := c]\<rparr>)
      else srv)"

definition serve_all :: "(message list \<Rightarrow> js_string) \<Rightarrow> server_event list \<Rightarrow> server \<Rightarrow> server" where
  "serve_all bp evs srv = fold (serve bp) evs srv"

text \<open>The server before its first request.\<close>

definition idle :: server where
  "idle = \<lparr>db = Map.empty, console = [], tasks = []\<rparr>"

section \<open>The workspace page\<close>

text \<open>
  \<open>app/workspace/[...repo]/page.tsx\<close>: the state cells of the page and its handlers
  \<open>handleSubmit\<close>, \<open>loadGitStatus\<close> and \<open>handleCommit\<close>.
\<close>

record GitStatus =
  modified :: "js_string list"
  added :: "js_string list"
  deleted :: "js_string list"
  untracked :: "js_string list"

record workspace =
  repoFullName :: js_string
  pageSessionId :: js_string
  messages :: "message list"
  input :: js_string
  loading :: bool
  gitStatus :: "GitStatus option"
  commitMessage :: js_string
  committing :: bool

record chat_request =
  rq_message :: js_string
  rq_repoFullName :: js_string
  rq_sessionId :: js_string

text \<open>
  \<open>handleSubmit\<close> up to its first \<open>await\<close>: the guard, the state updates and the
  request sent to \<open>/api/workspace/chat\<close> (\<open>None\<close> when the guard returns).
\<close>

definition handleSubmit_begin :: "workspace \<Rightarrow> workspace \<times> chat_request option" where
  "handleSubmit_begin w =
     (if trim (input w) = [] \<or> loading w then (w, None)
      else
        let userMessage = trim (input w)
        in (w\<lparr>input := [], messages := messages w @ [\<lparr>role = User, content = userMessage\<rparr>],
              loading := True\<rparr>,
            Some \<lparr>rq_message = userMessage, rq_repoFullName = repoFullName w,
                  rq_sessionId = pageSessionId w\<rparr>))"

text \<open>One line of the stream: only \<open>chunk\<close> events add to the message.\<close>

fun read_event :: "sse_event \<Rightarrow> js_string \<Rightarrow> js_string" where
  "read_event (Chunk t) assistantMessage = assistantMessage @ t"
| "read_event e assistantMessage = assistantMessage"

text \<open>
  \<open>loadGitStatus\<close>: \<open>data\<close> is the \<open>status\<close> field of the answer of
  \<open>/api/workspace/git/status\<close>, \<open>None\<close> when the request fails or the field is
  missing.
\<close>

definition loadGitStatus :: "GitStatus option \<Rightarrow> workspace \<Rightarrow> workspace" where
  "loadGitStatus data w = (case data of None \<Rightarrow> w | Some g \<Rightarrow> w\<lparr>gitStatus := Some g\<rparr>)"

text \<open>
  How the request of \<open>handleSubmit\<close> went: \<open>fetch\<close> threw or the response had no
  body; the stream was read to its end; or reading threw after some events. The events
  are those the page parsed from the \<open>data:\<close> lines of the stream.
\<close>

datatype fetch_outcome = Thrown | Read "sse_event list" | Broken "sse_event list"

text \<open>
  The rest of \<open>handleSubmit\<close>, once the request is over. Only chunk events are read;
  \<open>catch\<close> adds the error message; \<open>finally\<close> clears \<open>loading\<close> on every path.
\<close>

definition handleSubmit_end ::
  "fetch_outcome \<Rightarrow> GitStatus option \<Rightarrow> workspace \<Rightarrow> workspace" where
  "handleSubmit_end answer data w =
     (case answer of
        Thrown \<Rightarrow>
          w\<lparr>messages := messages w @
               [\<lparr>role = Assistant, content = js ''Error: Failed to get response''\<rparr>],
            loading := False\<rparr>
      | Read evs \<Rightarrow>
          loadGitStatus data
            (w\<lparr>messages := messages w @ [\<lparr>role = Assistant, content = fold read_event evs []\<rparr>],
               loading := False\<rparr>)
      | Broken evs \<Rightarrow>
          w\<lparr>messages := messages w @
               [\<lparr>role = Assistant, content = fold read_event evs []\<rparr>,
                \<lparr>role = Assistant, content = js ''Error: Failed to get response''\<rparr>],
            loading := False\<rparr>)"

section \<open>The Admission Controller\<close>

text \<open>
  Modelled from the spec: the worker pool of the Admission Controller (sections 3 and
  4.2 of the specification), of which the sources hold no code. A pool of
  \<open>poolSize\<close> slots, numbered from 0, and the slots that are held.
\<close>

record pool =
  poolSize :: nat
  held :: "nat list"

datatype admission_error = Timeout

definition free_slots :: "pool \<Rightarrow> nat list" where
  "free_slots p = filter (\<lambda>i. i \<notin> set (held p)) [0..<poolSize p]"

text \<open>
  Modelled from the spec: \<open>acquire(deadline) -> Slot | Timeout\<close> of the Admission
  Controller, which is missing from the sources, at the moment it returns: a free slot,
  or \<open>Timeout\<close> when the wait ended with no slot free.
\<close>

definition acquire :: "pool \<Rightarrow> admission_error + nat \<times> pool" where
  "acquire p =
     (case free_slots p of
        [] \<Rightarrow> Inl Timeout
      | i # _ \<Rightarrow> Inr (i, p\<lparr>held := i # held p\<rparr>))"

text \<open>
  Modelled from the spec: \<open>release(Slot)\<close> of the Admission Controller, which is
  missing from the sources.
\<close>

definition release :: "nat \<Rightarrow> pool \<Rightarrow> pool" where
  "release i p = p\<lparr>held := removeAll i (held p)\<rparr>"

text \<open>The number of slots acquired and not yet released.\<close>

definition outstanding :: "pool \<Rightarrow> nat" where
  "outstanding p = length (held p)"

text \<open>
  Modelled from the spec: the life of a task under the Admission Controller (sections
  3 and 5), which is missing from the sources. A task is admitted when \<open>acquire\<close>
  gives it a slot, before its subprocess is launched; a task that ends gives its slot
  back, whatever the outcome; a task refused by \<open>acquire\<close> holds nothing. The two
  counters record how many admissions and how many terminations took place.
\<close>

datatype outcome = Success | Failed | TimedOut | Cancelled

datatype task_event = Admit nat | Terminate nat outcome

record controller =
  slots :: pool
  running :: "(nat \<times> nat) list"
  admissions :: nat
  terminations :: nat

fun admission :: "task_event \<Rightarrow> controller \<Rightarrow> controller" where
  "admission (Admit t) k =
     (if t \<in> fst ` set (running k) then k
      else
        (case acquire (slots k) of
           Inl Timeout \<Rightarrow> k
         | Inr (i, p) \<Rightarrow>
             k\<lparr>slots := p, running := (t, i) # running k, admissions := Suc (admissions k)\<rparr>))"
| "admission (Terminate t out) k =
     (case map_of (running k) t of
        None \<Rightarrow> k
      | Some i \<Rightarrow>
          k\<lparr>slots := release i (slots k),
            running := filter (\<lambda>r. fst r \<noteq> t) (running k),
            terminations := Suc (terminations k)\<rparr>)"

text \<open>The controller of a pool of \<open>n\<close> slots before its first task.\<close>

definition controller_of :: "nat \<Rightarrow> controller" where
  "controller_of n =
     \<lparr>slots = \<lparr>poolSize = n, held = []\<rparr>, running = [], admissions = 0, terminations = 0\<rparr>"

definition admit_all :: "task_event list \<Rightarrow> controller \<Rightarrow> controller" where
  "admit_all evs k = fold admission evs k"

text \<open>What holds of every controller state that is reached.\<close>

definition pool_ok :: "controller \<Rightarrow> bool" where
  "pool_ok k \<longleftrightarrow>
     distinct (held (slots k)) \<and> list_all (\<lambda>i. i < poolSize (slots k)) (held (slots k)) \<and>
     distinct (map fst (running k)) \<and>
     map snd (running k) = held (slots k) \<and>
     terminations k + length (running k) = admissions k"

section \<open>The Git State Synchronizer\<close>











section \<open>The repo-integrations route\<close>

text \<open>
  The two interfaces of the route. A link is the pair of strings of a service
  (\<open>projectId\<close> or \<open>projectRef\<close>, and \<open>projectName\<close>); a field that is not set is
  \<open>None\<close>. The object \<open>RepoIntegrations\<close> is the list of its entries in the order
  of its keys: \<open>AList.update\<close> keeps the place of a key that exists and puts a new key
  last, as an assignment to a property does.
\<close>

type_synonym link = "js_string \<times> js_string"

record RepoIntegration =
  vercel :: "link option"
  supabase :: "link option"

type_synonym RepoIntegrations = "(js_string \<times> RepoIntegration) list"

definition no_services :: RepoIntegration where
  "no_services = \<lparr>vercel = None, supabase = None\<rparr>"

text \<open>\<open>Object.keys(entry).length === 0\<close>\<close>

definition no_keys :: "RepoIntegration \<Rightarrow> bool" where
  "no_keys e \<longleftrightarrow> vercel e = None \<and> supabase e = None"

datatype js_error = SyntaxError | TypeError

text \<open>
  \<open>getRepoIntegrations\<close>. \<open>JSON_parse\<close> is the parser of the runtime, at the type the
  function declares for its result, \<open>RepoIntegrations\<close>: \<open>Inl\<close> is what it throws.
  A text that parses to a value of another shape, and keys that an object inherits from
  its prototype, are outside this type. The cookie is its text, \<open>None\<close> when the
  request has no such cookie.
\<close>

definition getRepoIntegrations ::
  "(js_string \<Rightarrow> js_error + RepoIntegrations) \<Rightarrow> js_string option \<Rightarrow>
     js_error + RepoIntegrations" where
  "getRepoIntegrations JSON_parse cookie =
     (case cookie of
        None \<Rightarrow> Inr []
      | Some c \<Rightarrow>
          if c = [] then Inr []
          else (case JSON_parse c of Inl e \<Rightarrow> Inr [] | Inr v \<Rightarrow> Inr v))"

text \<open>
  The functions every object inherits from \<open>Object.prototype\<close>, by name, in a runtime
  to which nothing has been added.
\<close>

definition inherited_methods :: "js_string list" where
  "inherited_methods =
     map js [''constructor'', ''__defineGetter__'', ''__defineSetter__'', ''hasOwnProperty'',
       ''__lookupGetter__'', ''__lookupSetter__'', ''isPrototypeOf'', ''propertyIsEnumerable'',
       ''toString'', ''valueOf'', ''toLocaleString'']"

text \<open>
  \<open>integrations[repo]\<close>. A property read goes through the prototype chain: the entry
  of the object itself if it has one; else one of the inherited functions, or
  \<open>Object.prototype\<close> itself under the name \<open>__proto__\<close>; else \<open>undefined\<close>.
\<close>

datatype member = Entry RepoIntegration | Method | Prototype | Missing

definition get_member :: "RepoIntegrations \<Rightarrow> js_string \<Rightarrow> member" where
  "get_member integrations repo =
     (case map_of integrations repo of
        Some e \<Rightarrow> Entry e
      | None \<Rightarrow>
          if repo \<in> set inherited_methods then Method
          else if repo = js ''__proto__'' then Prototype
          else Missing)"

text \<open>
  \<open>integrations[repo] || {}\<close> as the value of the member \<open>integrations\<close> of a JSON
  body. An entry is written as it is, \<open>undefined\<close> gives way to \<open>{}\<close>, and
  \<open>Object.prototype\<close> has no key to write. A function is truthy, so it stays, and
  \<open>JSON.stringify\<close> leaves a member whose value is a function out: \<open>None\<close>.
\<close>

fun member_json :: "member \<Rightarrow> RepoIntegration option" where
  "member_json (Entry e) = Some e"
| "member_json Method = None"
| "member_json Prototype = Some no_services"
| "member_json Missing = Some no_services"

text \<open>
  The answers of the route: the status, the JSON body, and the value
  \<open>setRepoIntegrations\<close> stores in the cookie, if it is called. \<open>OneRepo\<close> is the body
  \<open>{integrations}\<close> of \<open>GET\<close> for one repository and \<open>Saved\<close> the body
  \<open>{success: true, integrations}\<close> of \<open>POST\<close>, each with its member
  \<open>integrations\<close>, \<open>None\<close> when the body has no such member.
\<close>

datatype route_body =
    OneRepo "RepoIntegration option"
  | AllRepos RepoIntegrations
  | Saved "RepoIntegration option"
  | Removed
  | Failure string

record route_response =
  status :: nat
  body :: route_body
  set_cookie :: "RepoIntegrations option"

definition bad_request :: "string \<Rightarrow> route_response" where
  "bad_request msg = \<lparr>status = 400, body = Failure msg, set_cookie = None\<rparr>"

text \<open>
  \<open>GET\<close>. \<open>repo\<close> is \<open>searchParams.get('repo')\<close>, \<open>None\<close> for \<open>null\<close>. The
  handler has no \<open>try\<close>: what \<open>getRepoIntegrations\<close> throws, it throws.
\<close>

definition GET ::
  "(js_string \<Rightarrow> js_error + RepoIntegrations) \<Rightarrow> js_string option \<Rightarrow> js_string option \<Rightarrow>
     js_error + route_response" where
  "GET JSON_parse cookie repo =
     (case getRepoIntegrations JSON_parse cookie of
        Inl e \<Rightarrow> Inl e
      | Inr integrations \<Rightarrow>
          (case repo of
             Some r \<Rightarrow>
               if r \<noteq> [] then
                 Inr \<lparr>status = 200, body = OneRepo (member_json (get_member integrations r)),
                      set_cookie = None\<rparr>
               else Inr \<lparr>status = 200, body = AllRepos integrations, set_cookie = None\<rparr>
           | None \<Rightarrow> Inr \<lparr>status = 200, body = AllRepos integrations, set_cookie = None\<rparr>))"

text \<open>
  A field of a request body: absent (\<open>undefined\<close>), \<open>null\<close>, or a value.
\<close>

datatype 'a field = Undefined | Null | Given 'a

record post_body =
  pb_repo :: "js_string field"
  pb_vercel :: "link field"
  pb_supabase :: "link field"

text \<open>\<open>!x\<close> for a string field.\<close>

fun falsy :: "js_string field \<Rightarrow> bool" where
  "falsy Undefined = True"
| "falsy Null = True"
| "falsy (Given s) = (s = [])"

fun given :: "js_string field \<Rightarrow> js_string" where
  "given (Given s) = s"
| "given f = []"

text \<open>
  The two updates of \<open>POST\<close>, \<open>vercel\<close> then \<open>supabase\<close>, on the object that
  \<open>integrations[repo]\<close> is: a field that is absent leaves the key, \<open>null\<close> deletes
  it, a value sets it.
\<close>

definition set_services :: "post_body \<Rightarrow> RepoIntegration \<Rightarrow> RepoIntegration" where
  "set_services b e0 =
     (let e1 = (case pb_vercel b of
                  Undefined \<Rightarrow> e0
                | Null \<Rightarrow> e0\<lparr>vercel := None\<rparr>
                | Given v \<Rightarrow> e0\<lparr>vercel := Some v\<rparr>)
      in (case pb_supabase b of
            Undefined \<Rightarrow> e1
          | Null \<Rightarrow> e1\<lparr>supabase := None\<rparr>
          | Given v \<Rightarrow> e1\<lparr>supabase := Some v\<rparr>))"

text \<open>The clean-up both handlers end with, for an entry of the object itself.\<close>

definition clean_up :: "js_string \<Rightarrow> RepoIntegration \<Rightarrow> RepoIntegrations \<Rightarrow> RepoIntegrations" where
  "clean_up repo e integrations =
     (if no_keys e then AList.delete repo integrations else AList.update repo e integrations)"

text \<open>
  \<open>POST\<close>. The body is \<open>None\<close> when \<open>request.json()\<close> throws; everything is inside
  \<open>try\<close>, and \<open>catch\<close> answers 400. When \<open>integrations[repo]\<close> is an entry or
  \<open>undefined\<close>, the updates and the clean-up work on the entry of the object itself.
  When it is an inherited member, that member is truthy, no entry is made, and the
  updates are written on the inherited object: the object read from the cookie is stored
  as it was (the clean-up finds no entry to delete), and the answer shows the inherited
  member, a function that is left out, or \<open>Object.prototype\<close> with the keys just set.
  What is written on an inherited object stays in the runtime after the request; the
  handlers are modelled in a runtime to which nothing has been added.
\<close>

definition POST ::
  "(js_string \<Rightarrow> js_error + RepoIntegrations) \<Rightarrow> js_string option \<Rightarrow> post_body option \<Rightarrow>
     route_response" where
  "POST JSON_parse cookie request =
     (case request of
        None \<Rightarrow> bad_request ''Invalid request body''
      | Some b \<Rightarrow>
          if falsy (pb_repo b) then bad_request ''repo is required''
          else
            (case getRepoIntegrations JSON_parse cookie of
               Inl e \<Rightarrow> bad_request ''Invalid request body''
             | Inr integrations \<Rightarrow>
                 let repo = given (pb_repo b) in
                 (case get_member integrations repo of
                    Method \<Rightarrow>
                      \<lparr>status = 200, body = Saved None, set_cookie = Some integrations\<rparr>
                  | Prototype \<Rightarrow>
                      \<lparr>status = 200, body = Saved (Some (set_services b no_services)),
                       set_cookie = Some integrations\<rparr>
                  | Entry e0 \<Rightarrow>
                      let integrations' = clean_up repo (set_services b e0) integrations
                      in \<lparr>status = 200,
                          body = Saved (member_json (get_member integrations' repo)),
                          set_cookie = Some integrations'\<rparr>
                  | Missing \<Rightarrow>
                      let integrations' = clean_up repo (set_services b no_services) integrations
                      in \<lparr>status = 200,
                          body = Saved (member_json (get_member integrations' repo)),
                          set_cookie = Some integrations'\<rparr>)))"

record delete_body =
  dl_repo :: "js_string field"
  dl_service :: "js_string field"

text \<open>
  \<open>DELETE\<close>. An inherited member is truthy, so the handler enters the branch; it has
  neither of the two keys and no key of its own, and the object read from the cookie has
  no entry to delete: it is stored as it was.
\<close>

definition DELETE ::
  "(js_string \<Rightarrow> js_error + RepoIntegrations) \<Rightarrow> js_string option \<Rightarrow> delete_body option \<Rightarrow>
     route_response" where
  "DELETE JSON_parse cookie request =
     (case request of
        None \<Rightarrow> bad_request ''Invalid request body''
      | Some b \<Rightarrow>
          if falsy (dl_repo b) \<or> falsy (dl_service b) then
            bad_request ''repo and service are required''
          else if given (dl_service b) \<noteq> js ''vercel'' \<and> given (dl_service b) \<noteq> js ''supabase'' then
            bad_request ''service must be \"vercel\" or \"supabase\"''
          else
            (case getRepoIntegrations JSON_parse cookie of
               Inl e \<Rightarrow> bad_request ''Invalid request body''
             | Inr integrations \<Rightarrow>
                 let repo = given (dl_repo b);
                     integrations' =
                       (case get_member integrations repo of
                          Entry e0 \<Rightarrow>
                            let e1 = (if given (dl_service b) = js ''vercel''
                                      then e0\<lparr>vercel := None\<rparr> else e0\<lparr>supabase := None\<rparr>)
                            in clean_up repo e1 integrations
                        | Method \<Rightarrow> integrations
                        | Prototype \<Rightarrow> integrations
                        | Missing \<Rightarrow> integrations)
                 in \<lparr>status = 200, body = Removed, set_cookie = Some integrations'\<rparr>))"

text \<open>The invariant of the store: no entry without a service.\<close>

definition no_empty_entry :: "RepoIntegrations \<Rightarrow> bool" where
  "no_empty_entry integrations = list_all (\<lambda>(repo, e). \<not> no_keys e) integrations"

section \<open>Sample inputs\<close>

text \<open>A page that has just been opened.\<close>

definition fresh_page :: workspace where
  "fresh_page =
     \<lparr>repoFullName = js ''o/r'', pageSessionId = js ''workspace-1'', messages = [],
      input = [], loading = False, gitStatus = None, commitMessage = [], committing = False\<rparr>"




text \<open>
  A cookie, and a parser to run the handlers with: it knows the text of this cookie and
  rejects every other.
\<close>

definition sample_cookie :: js_string where
  "sample_cookie = js ''{\"a/b\":{\"vercel\":{\"projectId\":\"p1\",\"projectName\":\"site\"}}}''"

definition sample_parse :: "js_string \<Rightarrow> js_error + RepoIntegrations" where
  "sample_parse c =
     (if c = sample_cookie
      then Inr [(js ''a/b'', \<lparr>vercel = Some (js ''p1'', js ''site''), supabase = None\<rparr>)]
      else Inl SyntaxError)"

section \<open>Properties of AddColumnModal\<close>

lemma ident_rest_list_all: "ident_rest s \<longleftrightarrow> list_all is_ident_char s"
  by (induction s) simp_all

lemma is_ident_start_char: "is_ident_start c \<Longrightarrow> is_ident_char c"
  by (auto simp: is_ident_start_def is_ident_char_def)

lemma test_identifier_valid: "test_identifier s \<longleftrightarrow> valid_identifier s"
  by (cases s) (auto simp: valid_identifier_def ident_rest_list_all is_ident_start_char)

text \<open>
  Claim C10. The submit handler of AddColumnModal calls \<open>onAdd\<close> exactly when the
  trimmed column name is a valid identifier (non-empty, first character a letter or an
  underscore, every character a letter, a digit or an underscore), and then it calls it
  once, with the trimmed name; for every other input it leaves an error message set and
  does not call \<open>onAdd\<close>.
\<close>

theorem handleSubmit_onAdd_iff_valid:
  "(valid_identifier (trim (name st)) \<longrightarrow>
      (\<exists>c. snd (handleSubmit st) = [c] \<and> cd_name c = trim (name st)) \<and>
      error (fst (handleSubmit st)) = '''') \<and>
   (\<not> valid_identifier (trim (name st)) \<longrightarrow>
      snd (handleSubmit st) = [] \<and> error (fst (handleSubmit st)) \<noteq> '''')"
proof (cases "trim (name st) = []")
  case True
  then show ?thesis
    by (simp add: handleSubmit_def valid_identifier_def)
next
  case False
  then show ?thesis
    by (simp add: handleSubmit_def Let_def test_identifier_valid)
qed

theorem handleSubmit_onAdd_iff_valid_witness:
  "valid_identifier (trim (js ''  created_at ''))
   \<and> snd (handleSubmit \<lparr>name = js ''  created_at '', type = js ''uuid'', nullable = False,
        defaultValue = js '' 0'', error = ''old''\<rparr>)
     = [\<lparr>cd_name = js ''created_at'', cd_type = js ''uuid'', cd_nullable = False,
         cd_defaultValue = js ''0''\<rparr>]
   \<and> \<not> valid_identifier (trim (js ''2nd col''))
   \<and> snd (handleSubmit \<lparr>name = js ''2nd col'', type = js ''text'', nullable = True,
        defaultValue = [], error = ''''\<rparr>) = []"
  using handleSubmit_onAdd_iff_valid
    [of "\<lparr>name = js ''  created_at '', type = js ''uuid'', nullable = False,
        defaultValue = js '' 0'', error = ''old''\<rparr>"]
    handleSubmit_onAdd_iff_valid
    [of "\<lparr>name = js ''2nd col'', type = js ''text'', nullable = True,
        defaultValue = [], error = ''''\<rparr>"]
  by (simp add: handleSubmit_def valid_identifier_def trim_def js_def is_js_space_def
      is_ident_start_def is_ident_char_def test_identifier_valid)

section \<open>Properties of the chat backend\<close>

lemma run_Nil [simp]: "run [] s = s" by (simp add: run_def)
lemma run_Cons [simp]: "run (e # evs) s = run evs (on_event e s)" by (simp add: run_def)
lemma run_append: "run (xs @ ys) s = run ys (run xs s)" by (simp add: run_def)

lemma run_open:
  "\<not> list_ex is_close evs \<Longrightarrow> End \<notin> set (res c) \<Longrightarrow>
   run evs (c, b) =
     (c\<lparr>responseContent := responseContent c @ concat (stdout_of evs),
        res := res c @ map (\<lambda>t. Write (Chunk t)) (stdout_of evs)\<rparr>,
      b\<lparr>console := console b @ map (Pair ''Claude stderr:'') (stderr_of evs)\<rparr>)"
proof (induction evs arbitrary: c b)
  case Nil
  then show ?case by simp
next
  case (Cons e evs)
  show ?case
  proof (cases e)
    case (StdoutData t)
    with Cons.prems have "End \<notin> set (res (c\<lparr>responseContent := responseContent c @ t,
        res := res_write (Chunk t) (res c)\<rparr>))"
      by (simp add: res_write_def)
    with Cons.prems StdoutData show ?thesis
      by (simp add: Cons.IH res_write_def)
  next
    case (StderrData t)
    with Cons.prems show ?thesis by (simp add: Cons.IH)
  next
    case (Close code)
    with Cons.prems show ?thesis by simp
  qed
qed

lemma run_closed:
  "End \<in> set (res c) \<Longrightarrow> res (fst (run evs (c, b))) = res c"
proof (induction evs arbitrary: c b)
  case Nil
  then show ?case by simp
next
  case (Cons e evs)
  then show ?case
    by (cases e) (simp_all add: res_write_def res_end_def Let_def)
qed


lemma complete_stream_chunks:
  "complete_stream (map (\<lambda>t. Write (Chunk t)) ts @ r) = complete_stream r"
  by (induction ts) simp_all

lemma complete_stream_iff:
  "complete_stream r \<longleftrightarrow>
     (\<exists>ts e. r = map (\<lambda>t. Write (Chunk t)) ts @ [Write e, End] \<and> is_terminal e)"
proof
  show "complete_stream r \<Longrightarrow>
    \<exists>ts e. r = map (\<lambda>t. Write (Chunk t)) ts @ [Write e, End] \<and> is_terminal e"
  proof (induction r rule: complete_stream.induct)
    case (1 t r)
    from "1.prems" have "complete_stream r" by simp
    with "1.IH" obtain ts e
      where "r = map (\<lambda>t. Write (Chunk t)) ts @ [Write e, End]" "is_terminal e"
      by blast
    then have "Write (Chunk t) # r = map (\<lambda>t. Write (Chunk t)) (t # ts) @ [Write e, End]"
      by simp
    with \<open>is_terminal e\<close> show ?case by blast
  next
    case (2 t)
    have "[Write (Done t), End] = map (\<lambda>t. Write (Chunk t)) [] @ [Write (Done t), End]" by simp
    moreover have "is_terminal (Done t)" by simp
    ultimately show ?case by blast
  next
    case (3 m)
    have "[Write (Error m), End] = map (\<lambda>t. Write (Chunk t)) [] @ [Write (Error m), End]" by simp
    moreover have "is_terminal (Error m)" by simp
    ultimately show ?case by blast
  qed simp_all
next
  assume "\<exists>ts e. r = map (\<lambda>t. Write (Chunk t)) ts @ [Write e, End] \<and> is_terminal e"
  then obtain ts e where r: "r = map (\<lambda>t. Write (Chunk t)) ts @ [Write e, End]" and "is_terminal e"
    by blast
  then show "complete_stream r"
    by (cases e) (simp_all add: complete_stream_chunks)
qed

lemma post_chat_res [simp]: "res (post_chat bp m s d) = []"
  by (simp add: post_chat_def Let_def)

lemma post_chat_responseContent [simp]: "responseContent (post_chat bp m s d) = []"
  by (simp add: post_chat_def Let_def)

lemma run_until_close:
  assumes "\<not> list_ex is_close outs"
  shows "run (outs @ Close code # rest) (post_chat bp m s d, b) =
     run rest (on_event (Close code)
       ((post_chat bp m s d)\<lparr>responseContent := concat (stdout_of outs),
          res := map (\<lambda>t. Write (Chunk t)) (stdout_of outs)\<rparr>,
        b\<lparr>console := console b @ map (Pair ''Claude stderr:'') (stderr_of outs)\<rparr>))"
  using assms by (simp add: run_append run_open)

lemma res_after_close:
  assumes "\<not> list_ex is_close outs"
  shows "res (fst (run (outs @ Close code # rest) (post_chat bp m s d, b))) =
     map (\<lambda>t. Write (Chunk t)) (stdout_of outs) @
       [Write (terminal_of code (concat (stdout_of outs))), End]"
proof -
  let ?c = "(post_chat bp m s d)\<lparr>responseContent := concat (stdout_of outs),
          res := map (\<lambda>t. Write (Chunk t)) (stdout_of outs)\<rparr>"
  let ?b = "b\<lparr>console := console b @ map (Pair ''Claude stderr:'') (stderr_of outs)\<rparr>"
  have noend: "End \<notin> set (map (\<lambda>t. Write (Chunk t)) (stdout_of outs))" by auto
  obtain c' b' where cb: "on_event (Close code) (?c, ?b) = (c', b')" by (cases "on_event (Close code) (?c, ?b)")
  have r: "res c' = map (\<lambda>t. Write (Chunk t)) (stdout_of outs) @
       [Write (terminal_of code (concat (stdout_of outs))), End]"
    using cb noend by (auto simp: terminal_of_def res_write_def res_end_def Let_def split: if_splits)
  then have "End \<in> set (res c')" by simp
  then have "res (fst (run rest (c', b'))) = res c'" by (rule run_closed)
  with r cb show ?thesis using assms by (simp add: run_until_close)
qed

lemma split_first_close:
  "list_ex is_close evs \<Longrightarrow>
   \<exists>outs code rest. evs = outs @ Close code # rest \<and> \<not> list_ex is_close outs"
proof (induction evs)
  case Nil
  then show ?case by simp
next
  case (Cons e evs)
  show ?case
  proof (cases e)
    case (Close code)
    then have "e # evs = [] @ Close code # evs \<and> \<not> list_ex is_close []" by simp
    then show ?thesis by blast
  next
    case (StdoutData t)
    with Cons obtain outs code rest where "evs = outs @ Close code # rest" "\<not> list_ex is_close outs"
      by auto
    with StdoutData have "e # evs = (e # outs) @ Close code # rest \<and> \<not> list_ex is_close (e # outs)"
      by simp
    then show ?thesis by blast
  next
    case (StderrData t)
    with Cons obtain outs code rest where "evs = outs @ Close code # rest" "\<not> list_ex is_close outs"
      by auto
    with StderrData have "e # evs = (e # outs) @ Close code # rest \<and> \<not> list_ex is_close (e # outs)"
      by simp
    then show ?thesis by blast
  qed
qed

lemma run_exit:
  assumes "\<not> list_ex is_close outs"
  shows "run (outs @ [Close code]) (post_chat bp m s d, b) =
     on_event (Close code)
       ((post_chat bp m s d)\<lparr>responseContent := concat (stdout_of outs),
          res := map (\<lambda>t. Write (Chunk t)) (stdout_of outs)\<rparr>,
        b\<lparr>console := console b @ map (Pair ''Claude stderr:'') (stderr_of outs)\<rparr>)"
  using run_until_close [OF assms, of code "[]"] by simp

lemma post_chat_history:
  "history (post_chat bp m s d) =
     (case d s of None \<Rightarrow> [] | Some ms \<Rightarrow> ms) @ [\<lparr>role = User, content = m\<rparr>]"
  by (simp add: post_chat_def Let_def)

lemma post_chat_sessionId [simp]: "sessionId (post_chat bp m s d) = s"
  by (simp add: post_chat_def Let_def)

lemma error_written:
  "Write (Error msg) \<in> set (res (fst (run evs (c, b)))) \<Longrightarrow>
   Write (Error msg) \<in> set (res c) \<or> (msg = ''Claude process failed'' \<and> list_ex is_failed_close evs)"
proof (induction evs arbitrary: c b)
  case Nil
  then show ?case by simp
next
  case (Cons e evs)
  show ?case
  proof (cases e)
    case (StdoutData t)
    with Cons.prems have "Write (Error msg) \<in> set (res (fst (run evs
        (c\<lparr>responseContent := responseContent c @ t, res := res_write (Chunk t) (res c)\<rparr>, b))))"
      by simp
    from Cons.IH [OF this] StdoutData show ?thesis
      by (auto simp: res_write_def split: if_splits)
  next
    case (StderrData t)
    with Cons.prems Cons.IH show ?thesis by auto
  next
    case (Close code)
    show ?thesis
    proof (cases "code = Some 0")
      case True
      with Close Cons.prems have "Write (Error msg) \<in> set (res (fst (run evs
        (c\<lparr>history := history c @ [\<lparr>role = Assistant, content = responseContent c\<rparr>],
           res := res_end (res_write (Done (responseContent c)) (res c))\<rparr>,
         b\<lparr>db := (db b)(sessionId c \<mapsto> history c @ [\<lparr>role = Assistant, content = responseContent c\<rparr>])\<rparr>))))"
        by (simp add: Let_def)
      from Cons.IH [OF this] Close show ?thesis
        by (auto simp: res_write_def res_end_def split: if_splits)
    next
      case False
      with Close Cons.prems have "Write (Error msg) \<in> set (res (fst (run evs
        (c\<lparr>res := res_end (res_write (Error ''Claude process failed'') (res c))\<rparr>, b))))"
        by simp
      from Cons.IH [OF this] Close False show ?thesis
        by (auto simp: res_write_def res_end_def split: if_splits)
    qed
  qed
qed

lemmas chat_eval = post_chat_def res_write_def res_end_def Let_def js_def plain_prompt_def
  sample_chat_def sample_backend_def

text \<open>
  Claim C1, as amended. For every task whose subprocess closes, the events delivered to
  the caller are zero or more chunk events followed by exactly one terminal event (done
  or error), nothing is delivered after the terminal event, and the response ends right
  after it. While the subprocess has not closed, the caller has received chunk events
  only, one for each fragment of standard output, in order, and the response is open.
\<close>

theorem chat_stream_shape:
  "(list_ex is_close evs \<longrightarrow>
      complete_stream (res (fst (run evs (post_chat bp m s d, b))))) \<and>
   (\<not> list_ex is_close evs \<longrightarrow>
      res (fst (run evs (post_chat bp m s d, b))) = map (\<lambda>t. Write (Chunk t)) (stdout_of evs))"
proof (intro conjI impI)
  assume "list_ex is_close evs"
  then obtain outs code rest where evs: "evs = outs @ Close code # rest"
    and outs: "\<not> list_ex is_close outs"
    using split_first_close by blast
  have "is_terminal (terminal_of code (concat (stdout_of outs)))"
    by (simp add: terminal_of_def)
  then show "complete_stream (res (fst (run evs (post_chat bp m s d, b))))"
    unfolding evs res_after_close [OF outs] complete_stream_iff by blast
next
  assume "\<not> list_ex is_close evs"
  then show "res (fst (run evs (post_chat bp m s d, b))) = map (\<lambda>t. Write (Chunk t)) (stdout_of evs)"
    by (simp add: run_open)
qed

theorem chat_stream_shape_witness:
  "list_ex is_close [StdoutData (js ''a''), StderrData (js ''w''), StdoutData (js ''b''), Close (Some 0)]
   \<and> complete_stream (res (fst (run
        [StdoutData (js ''a''), StderrData (js ''w''), StdoutData (js ''b''), Close (Some 0)]
        (sample_chat, sample_backend))))
   \<and> res (fst (run
        [StdoutData (js ''a''), StderrData (js ''w''), StdoutData (js ''b''), Close (Some 0)]
        (sample_chat, sample_backend)))
     = [Write (Chunk (js ''a'')), Write (Chunk (js ''b'')), Write (Done (js ''ab'')), End]
   \<and> \<not> list_ex is_close [StdoutData (js ''a''), StderrData (js ''w'')]
   \<and> res (fst (run [StdoutData (js ''a''), StderrData (js ''w'')] (sample_chat, sample_backend)))
     = [Write (Chunk (js ''a''))]"
  using chat_stream_shape [of
        "[StdoutData (js ''a''), StderrData (js ''w''), StdoutData (js ''b''), Close (Some 0)]"
        plain_prompt "js ''q''" "js ''s1''" Map.empty sample_backend]
    chat_stream_shape [of "[StdoutData (js ''a''), StderrData (js ''w'')]"
        plain_prompt "js ''q''" "js ''s1''" Map.empty sample_backend]
  by (simp add: chat_eval)

text \<open>
  The claim as it stands fails for a task whose subprocess writes a fragment and does
  not exit: the caller has the chunk, and no terminal event.
\<close>

theorem chat_stream_shape_counterexample:
  "res (fst (run [StdoutData (js ''hi'')] (sample_chat, sample_backend)))
     = [Write (Chunk (js ''hi''))]
   \<and> \<not> complete_stream (res (fst (run [StdoutData (js ''hi'')] (sample_chat, sample_backend))))"
  by (simp add: chat_eval)

text \<open>
  Claim C4, as amended. The executor sets no execution timeout on the subprocess. While
  the subprocess has not closed, whatever it writes and however long it runs, the caller
  receives chunk events only: no terminal event and no end of the response. The one error
  message the handler can deliver is the generic \<open>Claude process failed\<close>, and it is
  delivered only after a close of the subprocess with a status other than 0.
\<close>

theorem chat_no_timeout:
  "timeout (claude (post_chat bp m s d)) = None
   \<and> (\<not> list_ex is_close evs \<longrightarrow>
        list_all is_chunk_write (res (fst (run evs (post_chat bp m s d, b)))))
   \<and> (Write (Error msg) \<in> set (res (fst (run evs (post_chat bp m s d, b)))) \<longrightarrow>
        msg = ''Claude process failed'' \<and> list_ex is_failed_close evs)"
proof (intro conjI impI)
  show "timeout (claude (post_chat bp m s d)) = None"
    by (simp add: post_chat_def Let_def)
next
  assume "\<not> list_ex is_close evs"
  then show "list_all is_chunk_write (res (fst (run evs (post_chat bp m s d, b))))"
    by (simp add: run_open list_all_iff)
next
  assume "Write (Error msg) \<in> set (res (fst (run evs (post_chat bp m s d, b))))"
  from error_written [OF this] show "msg = ''Claude process failed''" by simp
next
  assume "Write (Error msg) \<in> set (res (fst (run evs (post_chat bp m s d, b))))"
  from error_written [OF this] show "list_ex is_failed_close evs" by simp
qed

theorem chat_no_timeout_witness:
  "\<not> list_ex is_close [StdoutData (js ''a''), StderrData (js ''w'')]
   \<and> list_all is_chunk_write
        (res (fst (run [StdoutData (js ''a''), StderrData (js ''w'')] (sample_chat, sample_backend))))
   \<and> Write (Error ''Claude process failed'')
        \<in> set (res (fst (run [StdoutData (js ''a''), Close (Some 2)] (sample_chat, sample_backend))))
   \<and> list_ex is_failed_close [StdoutData (js ''a''), Close (Some 2)]"
  using chat_no_timeout [of plain_prompt "js ''q''" "js ''s1''" Map.empty
        "[StdoutData (js ''a''), StderrData (js ''w'')]" sample_backend]
    chat_no_timeout [of plain_prompt "js ''q''" "js ''s1''" Map.empty
        "[StdoutData (js ''a''), Close (Some 2)]" sample_backend "''Claude process failed''"]
  by (simp add: chat_eval)

text \<open>
  The claim as it stands fails on the spawn of every request, which carries no timeout,
  and for a subprocess that does not exit: no error event is delivered.
\<close>

theorem chat_no_timeout_counterexample:
  "timeout (claude sample_chat) = None
   \<and> res (fst (run [StdoutData (js ''a''), StderrData (js ''w'')] (sample_chat, sample_backend)))
     = [Write (Chunk (js ''a''))]
   \<and> \<not> list_ex is_error_write
        (res (fst (run [StdoutData (js ''a''), StderrData (js ''w'')] (sample_chat, sample_backend))))"
  by (simp add: chat_eval)

text \<open>
  Claim C5. For every task whose subprocess exits with status 0, the done event carries
  the concatenation, in order, of the contents of the chunk events delivered before it,
  and the same text is appended to the conversation of the session as the assistant
  turn, after the user turn of the request.
\<close>

theorem chat_done_is_concatenation:
  assumes "\<not> list_ex is_close outs"
  shows "res (fst (run (outs @ [Close (Some 0)]) (post_chat bp m s d, b))) =
           map (\<lambda>t. Write (Chunk t)) (stdout_of outs) @
             [Write (Done (concat (stdout_of outs))), End]
       \<and> db (snd (run (outs @ [Close (Some 0)]) (post_chat bp m s d, b))) =
           (db b)(s \<mapsto> (case d s of None \<Rightarrow> [] | Some ms \<Rightarrow> ms) @
              [\<lparr>role = User, content = m\<rparr>,
               \<lparr>role = Assistant, content = concat (stdout_of outs)\<rparr>])"
proof -
  have "End \<notin> set (map (\<lambda>t. Write (Chunk t)) (stdout_of outs))" by auto
  then show ?thesis
    by (simp add: run_exit [OF assms] Let_def res_write_def res_end_def post_chat_history)
qed

theorem chat_done_is_concatenation_witness:
  "\<not> list_ex is_close [StdoutData (js ''a''), StderrData (js ''w''), StdoutData (js ''b'')]
   \<and> res (fst (run
        ([StdoutData (js ''a''), StderrData (js ''w''), StdoutData (js ''b'')] @ [Close (Some 0)])
        (sample_chat, sample_backend)))
     = [Write (Chunk (js ''a'')), Write (Chunk (js ''b'')), Write (Done (js ''ab'')), End]
   \<and> db (snd (run
        ([StdoutData (js ''a''), StderrData (js ''w''), StdoutData (js ''b'')] @ [Close (Some 0)])
        (sample_chat, sample_backend))) (js ''s1'')
     = Some [\<lparr>role = User, content = js ''q''\<rparr>, \<lparr>role = Assistant, content = js ''ab''\<rparr>]"
  using chat_done_is_concatenation
      [of "[StdoutData (js ''a''), StderrData (js ''w''), StdoutData (js ''b'')]"
        plain_prompt "js ''q''" "js ''s1''" Map.empty sample_backend]
  by (simp add: chat_eval)

text \<open>
  Claim C6. For every task whose subprocess exits with a status other than 0, the
  caller receives, after the chunks, the terminal error event with the fixed message
  \<open>Claude process failed\<close>; what the subprocess writes to standard error goes to the
  console and has no influence on the events delivered; and the stored conversations
  are left as they were.
\<close>

theorem chat_failure_generic_error:
  assumes "\<not> list_ex is_close outs" and "code \<noteq> Some 0"
  shows "res (fst (run (outs @ [Close code]) (post_chat bp m s d, b))) =
           map (\<lambda>t. Write (Chunk t)) (stdout_of outs) @
             [Write (Error ''Claude process failed''), End]
       \<and> db (snd (run (outs @ [Close code]) (post_chat bp m s d, b))) = db b
       \<and> console (snd (run (outs @ [Close code]) (post_chat bp m s d, b))) =
           console b @ map (Pair ''Claude stderr:'') (stderr_of outs)
       \<and> (\<forall>outs'. \<not> list_ex is_close outs' \<and> stdout_of outs' = stdout_of outs \<longrightarrow>
            res (fst (run (outs' @ [Close code]) (post_chat bp m s d, b))) =
            res (fst (run (outs @ [Close code]) (post_chat bp m s d, b))))"
proof -
  have noend: "\<And>ts. End \<notin> set (map (\<lambda>t. Write (Chunk t)) ts)" by auto
  have r: "res (fst (run (xs @ [Close code]) (post_chat bp m s d, b))) =
           map (\<lambda>t. Write (Chunk t)) (stdout_of xs) @
             [Write (Error ''Claude process failed''), End]"
    if "\<not> list_ex is_close xs" for xs
    using assms(2) noend by (simp add: run_exit [OF that] res_write_def res_end_def)
  have "db (snd (run (outs @ [Close code]) (post_chat bp m s d, b))) = db b"
    and "console (snd (run (outs @ [Close code]) (post_chat bp m s d, b))) =
           console b @ map (Pair ''Claude stderr:'') (stderr_of outs)"
    using assms(2) by (simp_all add: run_exit [OF assms(1)])
  with r [OF assms(1)] r show ?thesis by simp
qed

theorem chat_failure_generic_error_witness:
  "\<not> list_ex is_close [StdoutData (js ''a''), StderrData (js ''secret'')]
   \<and> Some 1 \<noteq> Some (0::int)
   \<and> res (fst (run ([StdoutData (js ''a''), StderrData (js ''secret'')] @ [Close (Some 1)])
        (sample_chat, sample_backend)))
     = [Write (Chunk (js ''a'')), Write (Error ''Claude process failed''), End]
   \<and> db (snd (run ([StdoutData (js ''a''), StderrData (js ''secret'')] @ [Close (Some 1)])
        (sample_chat, sample_backend))) (js ''s1'') = None
   \<and> console (snd (run ([StdoutData (js ''a''), StderrData (js ''secret'')] @ [Close (Some 1)])
        (sample_chat, sample_backend)))
     = [(''Claude stderr:'', js ''secret'')]"
  using chat_failure_generic_error
      [of "[StdoutData (js ''a''), StderrData (js ''secret'')]" "Some 1"
        plain_prompt "js ''q''" "js ''s1''" Map.empty sample_backend]
  by (simp add: chat_eval)

section \<open>Properties of the Admission Controller\<close>

lemma acquire_Inr:
  assumes "acquire p = Inr (i, p')"
  shows "i < poolSize p \<and> i \<notin> set (held p) \<and> p' = p\<lparr>held := i # held p\<rparr>"
proof -
  from assms obtain rest where f: "free_slots p = i # rest" and p': "p' = p\<lparr>held := i # held p\<rparr>"
    by (auto simp: acquire_def split: list.splits)
  then have "i \<in> set (free_slots p)" by simp
  then have "i < poolSize p \<and> i \<notin> set (held p)" by (simp add: free_slots_def)
  with p' show ?thesis by simp
qed

lemma remove_task:
  assumes "distinct (map fst r)" and "distinct (map snd r)" and "map_of r t = Some i"
  shows "map snd (filter (\<lambda>x. fst x \<noteq> t) r) = removeAll i (map snd r)
       \<and> Suc (length (filter (\<lambda>x. fst x \<noteq> t) r)) = length r"
  using assms
proof (induction r)
  case Nil
  then show ?case by simp
next
  case (Cons x r)
  obtain t' i' where x: "x = (t', i')" by (cases x)
  show ?case
  proof (cases "t' = t")
    case True
    with Cons.prems x have i: "i' = i" and nt: "t \<notin> fst ` set r" and ni: "i \<notin> snd ` set r"
      by auto
    from nt have "filter (\<lambda>x. fst x \<noteq> t) r = r"
      by (auto simp: filter_id_conv)
    moreover from ni have "removeAll i (map snd r) = map snd r"
      by (simp add: removeAll_id)
    ultimately show ?thesis using True x i by simp
  next
    case False
    with Cons.prems x have m: "map_of r t = Some i" by simp
    then have "(t, i) \<in> set r" by (rule map_of_SomeD)
    then have "i \<in> snd ` set r" by force
    with Cons.prems x have "i' \<noteq> i" by auto
    moreover from Cons.IH Cons.prems m
    have "map snd (filter (\<lambda>x. fst x \<noteq> t) r) = removeAll i (map snd r)
       \<and> Suc (length (filter (\<lambda>x. fst x \<noteq> t) r)) = length r"
      by simp
    ultimately show ?thesis using False x by simp
  qed
qed

lemma pool_ok_start: "pool_ok (controller_of n)"
  by (simp add: pool_ok_def controller_of_def)

lemma pool_ok_admission:
  assumes "pool_ok k"
  shows "pool_ok (admission e k)"
proof (cases e)
  case (Admit t)
  show ?thesis
  proof (cases "t \<in> fst ` set (running k)")
    case True
    with Admit assms show ?thesis by simp
  next
    case False
    show ?thesis
    proof (cases "acquire (slots k)")
      case (Inl err)
      with Admit False assms show ?thesis by (cases err) simp
    next
      case (Inr ip)
      obtain i p where ip: "ip = (i, p)" by (cases ip)
      from acquire_Inr [of "slots k" i p] Inr ip
      have "i < poolSize (slots k)" "i \<notin> set (held (slots k))"
        "p = (slots k)\<lparr>held := i # held (slots k)\<rparr>"
        by simp_all
      with Admit False Inr ip assms show ?thesis
        by (simp add: pool_ok_def)
    qed
  qed
next
  case (Terminate t out)
  show ?thesis
  proof (cases "map_of (running k) t")
    case None
    with Terminate assms show ?thesis by simp
  next
    case (Some i)
    from assms have d: "distinct (map fst (running k))" "distinct (map snd (running k))"
      and h: "map snd (running k) = held (slots k)"
      by (simp_all add: pool_ok_def)
    from remove_task [OF d Some] h
    have r: "map snd (filter (\<lambda>x. fst x \<noteq> t) (running k)) = removeAll i (held (slots k))"
      "Suc (length (filter (\<lambda>x. fst x \<noteq> t) (running k))) = length (running k)"
      by simp_all
    from assms have "distinct (removeAll i (held (slots k)))"
      "list_all (\<lambda>j. j < poolSize (slots k)) (removeAll i (held (slots k)))"
      by (auto simp: pool_ok_def distinct_removeAll list_all_iff)
    moreover from d have "distinct (map fst (filter (\<lambda>x. fst x \<noteq> t) (running k)))"
      by (simp add: distinct_map_filter)
    moreover from assms r have
      "Suc (terminations k) + length (filter (\<lambda>x. fst x \<noteq> t) (running k)) = admissions k"
      by (simp add: pool_ok_def)
    ultimately show ?thesis using Terminate Some r
      by (simp add: pool_ok_def release_def)
  qed
qed

lemma poolSize_admission: "poolSize (slots (admission e k)) = poolSize (slots k)"
proof (cases e)
  case (Admit t)
  show ?thesis
  proof (cases "acquire (slots k)")
    case (Inl err)
    with Admit show ?thesis by (cases err) simp
  next
    case (Inr ip)
    obtain i p where ip: "ip = (i, p)" by (cases ip)
    with Inr acquire_Inr [of "slots k" i p] have "poolSize p = poolSize (slots k)" by simp
    with Admit Inr ip show ?thesis by simp
  qed
next
  case (Terminate t out)
  then show ?thesis by (simp add: release_def split: option.splits)
qed

lemma admit_all_ok:
  "pool_ok k \<Longrightarrow> pool_ok (admit_all evs k) \<and>
     poolSize (slots (admit_all evs k)) = poolSize (slots k)"
  unfolding admit_all_def
  by (induction evs arbitrary: k) (simp_all add: pool_ok_admission poolSize_admission)

lemma pool_ok_bound:
  assumes "pool_ok k"
  shows "outstanding (slots k) \<le> poolSize (slots k)"
proof -
  from assms have "distinct (held (slots k))" "set (held (slots k)) \<subseteq> {..<poolSize (slots k)}"
    by (auto simp: pool_ok_def list_all_iff)
  then have "card (set (held (slots k))) \<le> card {..<poolSize (slots k)}"
    by (intro card_mono) simp_all
  with \<open>distinct (held (slots k))\<close> show ?thesis
    by (simp add: outstanding_def distinct_card)
qed

lemma pool_ok_count:
  assumes "pool_ok k"
  shows "terminations k + outstanding (slots k) = admissions k"
proof -
  from assms have "length (held (slots k)) = length (running k)"
    by (metis pool_ok_def length_map)
  with assms show ?thesis by (simp add: pool_ok_def outstanding_def)
qed

lemma terminate_releases:
  assumes "pool_ok k" and "map_of (running k) t = Some i"
  shows "Suc (outstanding (slots (admission (Terminate t out) k))) = outstanding (slots k)"
proof -
  from pool_ok_admission [OF assms(1), of "Terminate t out"]
  have "terminations (admission (Terminate t out) k)
      + outstanding (slots (admission (Terminate t out) k))
      = admissions (admission (Terminate t out) k)"
    by (rule pool_ok_count)
  moreover from assms(2) have "terminations (admission (Terminate t out) k) = Suc (terminations k)"
    "admissions (admission (Terminate t out) k) = admissions k"
    by simp_all
  ultimately show ?thesis using pool_ok_count [OF assms(1)] by simp
qed

text \<open>
  Claim C3. At most N slots (the pool size) are outstanding at any time, a task that
  ends gives its slot back whatever its outcome (success, error, timeout,
  cancellation), and when as many terminations as admissions have taken place no slot
  is outstanding.
\<close>

theorem slots_conserved:
  "outstanding (slots (admit_all evs (controller_of n))) \<le> n
   \<and> terminations (admit_all evs (controller_of n))
       + outstanding (slots (admit_all evs (controller_of n)))
       = admissions (admit_all evs (controller_of n))
   \<and> (admissions (admit_all evs (controller_of n)) = terminations (admit_all evs (controller_of n))
        \<longrightarrow> outstanding (slots (admit_all evs (controller_of n))) = 0)
   \<and> (map_of (running (admit_all evs (controller_of n))) t = Some i \<longrightarrow>
        Suc (outstanding (slots (admission (Terminate t out) (admit_all evs (controller_of n)))))
          = outstanding (slots (admit_all evs (controller_of n))))"
proof -
  let ?k = "admit_all evs (controller_of n)"
  have ok: "pool_ok ?k" and size: "poolSize (slots ?k) = n"
    using admit_all_ok [OF pool_ok_start, of evs n] by (simp_all add: controller_of_def)
  from pool_ok_bound [OF ok] size have "outstanding (slots ?k) \<le> n" by simp
  moreover note c = pool_ok_count [OF ok]
  moreover from c have "admissions ?k = terminations ?k \<longrightarrow> outstanding (slots ?k) = 0"
    by simp
  moreover have "map_of (running ?k) t = Some i \<longrightarrow>
        Suc (outstanding (slots (admission (Terminate t out) ?k))) = outstanding (slots ?k)"
    using terminate_releases [OF ok] by blast
  ultimately show ?thesis by blast
qed

lemmas pool_eval = admit_all_def controller_of_def acquire_def release_def free_slots_def
  outstanding_def upt_rec

theorem slots_conserved_witness:
  "admissions (admit_all [Admit 1, Admit 2, Admit 3, Terminate 2 TimedOut, Admit 3,
       Terminate 1 Success, Terminate 3 Cancelled] (controller_of 2)) = 3
   \<and> terminations (admit_all [Admit 1, Admit 2, Admit 3, Terminate 2 TimedOut, Admit 3,
       Terminate 1 Success, Terminate 3 Cancelled] (controller_of 2)) = 3
   \<and> outstanding (slots (admit_all [Admit 1, Admit 2, Admit 3, Terminate 2 TimedOut, Admit 3,
       Terminate 1 Success, Terminate 3 Cancelled] (controller_of 2))) = 0
   \<and> map_of (running (admit_all [Admit 1, Admit 2] (controller_of 2))) 2 = Some 1
   \<and> outstanding (slots (admit_all [Admit 1, Admit 2] (controller_of 2))) = 2
   \<and> outstanding (slots (admission (Terminate 2 Failed)
        (admit_all [Admit 1, Admit 2] (controller_of 2)))) = 1"
  using slots_conserved [of "[Admit 1, Admit 2, Admit 3, Terminate 2 TimedOut, Admit 3,
       Terminate 1 Success, Terminate 3 Cancelled]" 2]
    slots_conserved [of "[Admit 1, Admit 2]" 2 2 1 Failed]
  by (simp add: pool_eval)


section \<open>Properties of the workspace page and of the backend under several requests\<close>

lemma serve_all_Nil [simp]: "serve_all bp [] srv = srv"
  by (simp add: serve_all_def)

lemma serve_all_Cons [simp]: "serve_all bp (e # evs) srv = serve_all bp evs (serve bp e srv)"
  by (simp add: serve_all_def)

text \<open>
  Claim C2, as amended. The backend does not look for a task in flight: every request
  is accepted and gets a subprocess of its own, also for a session that has one running.
  What keeps a second task from a session is the page: while \<open>loading\<close> is set,
  \<open>handleSubmit\<close> returns at once, sends no request and changes nothing; a submit that
  sends a request sets \<open>loading\<close>, so that the next submit is such a return, whatever
  was typed; and the end of the request clears \<open>loading\<close>.
\<close>

theorem submit_guard:
  "(loading w \<longrightarrow> handleSubmit_begin w = (w, None))
   \<and> (snd (handleSubmit_begin w) \<noteq> None \<longrightarrow>
        \<not> loading w \<and> loading (fst (handleSubmit_begin w)) \<and>
        handleSubmit_begin ((fst (handleSubmit_begin w))\<lparr>input := i\<rparr>)
          = ((fst (handleSubmit_begin w))\<lparr>input := i\<rparr>, None))
   \<and> \<not> loading (handleSubmit_end answer data w)
   \<and> tasks (serve bp (PostChat msg sid) srv) = tasks srv @ [post_chat bp msg sid (db srv)]"
  by (auto simp: handleSubmit_begin_def handleSubmit_end_def loadGitStatus_def Let_def
      split: option.splits fetch_outcome.splits if_splits)

lemmas page_eval = handleSubmit_begin_def handleSubmit_end_def loadGitStatus_def Let_def
  fresh_page_def trim_def is_js_space_def js_def

theorem submit_guard_witness:
  "loading (fresh_page\<lparr>input := js ''again'', loading := True\<rparr>)
   \<and> handleSubmit_begin (fresh_page\<lparr>input := js ''again'', loading := True\<rparr>)
       = (fresh_page\<lparr>input := js ''again'', loading := True\<rparr>, None)
   \<and> snd (handleSubmit_begin (fresh_page\<lparr>input := js '' hi ''\<rparr>))
       = Some \<lparr>rq_message = js ''hi'', rq_repoFullName = js ''o/r'',
               rq_sessionId = js ''workspace-1''\<rparr>
   \<and> loading (fst (handleSubmit_begin (fresh_page\<lparr>input := js '' hi ''\<rparr>)))
   \<and> snd (handleSubmit_begin
        ((fst (handleSubmit_begin (fresh_page\<lparr>input := js '' hi ''\<rparr>)))\<lparr>input := js ''again''\<rparr>))
       = None"
  using submit_guard [of "fresh_page\<lparr>input := js ''again'', loading := True\<rparr>"]
    submit_guard [of "fresh_page\<lparr>input := js '' hi ''\<rparr>" "js ''again''"]
  by (simp add: page_eval)

text \<open>
  The claim as it stands fails on the backend: two requests of the session \<open>s1\<close>, the
  second sent while the first is in flight. Both are accepted, their chunks alternate,
  and both end with a done event; none is refused.
\<close>

theorem second_task_runs_concurrently:
  "map sessionId (tasks (serve_all plain_prompt
      [PostChat (js ''first'') (js ''s1''), PostChat (js ''second'') (js ''s1''),
       Proc 0 (StdoutData (js ''x'')), Proc 1 (StdoutData (js ''y'')),
       Proc 0 (Close (Some 0)), Proc 1 (Close (Some 0))] idle))
     = [js ''s1'', js ''s1'']
   \<and> map res (tasks (serve_all plain_prompt
      [PostChat (js ''first'') (js ''s1''), PostChat (js ''second'') (js ''s1''),
       Proc 0 (StdoutData (js ''x'')), Proc 1 (StdoutData (js ''y''))] idle))
     = [[Write (Chunk (js ''x''))], [Write (Chunk (js ''y''))]]
   \<and> map res (tasks (serve_all plain_prompt
      [PostChat (js ''first'') (js ''s1''), PostChat (js ''second'') (js ''s1''),
       Proc 0 (StdoutData (js ''x'')), Proc 1 (StdoutData (js ''y'')),
       Proc 0 (Close (Some 0)), Proc 1 (Close (Some 0))] idle))
     = [[Write (Chunk (js ''x'')), Write (Done (js ''x'')), End],
        [Write (Chunk (js ''y'')), Write (Done (js ''y'')), End]]"
  by (simp add: idle_def chat_eval)

section \<open>Properties of the Git State Synchronizer\<close>







section \<open>Properties of the repo-integrations route\<close>

lemma no_empty_entry_update:
  "no_empty_entry m \<Longrightarrow> \<not> no_keys e \<Longrightarrow> no_empty_entry (AList.update r e m)"
  by (induction m) (auto simp: no_empty_entry_def)

lemma no_empty_entry_delete:
  "no_empty_entry m \<Longrightarrow> no_empty_entry (AList.delete r m)"
  by (induction m) (auto simp: no_empty_entry_def)

lemma no_empty_entry_clean_up:
  "no_empty_entry m \<Longrightarrow> no_empty_entry (clean_up r e m)"
  by (simp add: clean_up_def no_empty_entry_update no_empty_entry_delete)

text \<open>
  Whatever the cookie held, the entry a handler has touched is not left without a
  service: it has one, or it is gone.
\<close>

lemma clean_up_entry:
  "map_of (clean_up r e m) r = (if no_keys e then None else Some e)"
  by (simp add: clean_up_def update_conv' delete_conv')

lemma get_member_Entry: "get_member m r = Entry e \<longleftrightarrow> map_of m r = Some e"
  by (auto simp: get_member_def split: option.splits)

lemma get_member_not_Entry: "map_of m r = None \<Longrightarrow> get_member m r \<noteq> Entry e"
  by (simp add: get_member_Entry)

lemma POST_entry:
  assumes "getRepoIntegrations JSON_parse cookie = Inr m"
    and "get_member m (given (pb_repo b)) = Entry e0 \<or> get_member m (given (pb_repo b)) = Missing"
    and "set_cookie (POST JSON_parse cookie (Some b)) = Some m'"
    and "map_of m' (given (pb_repo b)) = Some e"
  shows "\<not> no_keys e"
  using assms
  by (auto simp: POST_def bad_request_def Let_def clean_up_entry
      split: if_splits member.splits)

lemma DELETE_entry:
  assumes "getRepoIntegrations JSON_parse cookie = Inr m"
    and "map_of m (given (dl_repo b)) = Some e0"
    and "set_cookie (DELETE JSON_parse cookie (Some b)) = Some m'"
    and "map_of m' (given (dl_repo b)) = Some e"
  shows "\<not> no_keys e"
proof -
  from assms(2) have "get_member m (given (dl_repo b)) = Entry e0"
    by (simp add: get_member_Entry)
  with assms(1,3,4) show ?thesis
    by (auto simp: DELETE_def bad_request_def Let_def clean_up_entry split: if_splits)
qed


lemma POST_set_cookie:
  assumes "getRepoIntegrations JSON_parse cookie = Inr m"
    and "set_cookie (POST JSON_parse cookie request) = Some m'"
  shows "m' = m \<or> (\<exists>r e. m' = clean_up r e m)"
  using assms
  by (auto simp: POST_def bad_request_def Let_def split: option.splits if_splits member.splits)

lemma DELETE_set_cookie:
  assumes "getRepoIntegrations JSON_parse cookie = Inr m"
    and "set_cookie (DELETE JSON_parse cookie request) = Some m'"
  shows "m' = m \<or> (\<exists>r e. m' = clean_up r e m)"
  using assms
  by (auto simp: DELETE_def bad_request_def Let_def split: option.splits if_splits member.splits)

text \<open>
  Claim C8. The store keeps the invariant that no repository maps to an entry without
  a service: it holds of the empty store a request without cookie reads, and when it
  holds of the store a handler reads, it holds of the store \<open>POST\<close> and \<open>DELETE\<close>
  write (an entry that loses its last service is deleted).
\<close>

theorem no_empty_entry_kept:
  assumes "getRepoIntegrations JSON_parse cookie = Inr m" and "no_empty_entry m"
  shows "(set_cookie (POST JSON_parse cookie saved) = Some m' \<longrightarrow> no_empty_entry m')
       \<and> (set_cookie (DELETE JSON_parse cookie removed) = Some m'' \<longrightarrow> no_empty_entry m'')
       \<and> getRepoIntegrations JSON_parse None = Inr []
       \<and> no_empty_entry []"
proof (intro conjI impI)
  assume "set_cookie (POST JSON_parse cookie saved) = Some m'"
  from POST_set_cookie [OF assms(1) this] assms(2) show "no_empty_entry m'"
    by (auto simp: no_empty_entry_clean_up)
next
  assume "set_cookie (DELETE JSON_parse cookie removed) = Some m''"
  from DELETE_set_cookie [OF assms(1) this] assms(2) show "no_empty_entry m''"
    by (auto simp: no_empty_entry_clean_up)
next
  show "getRepoIntegrations JSON_parse None = Inr []"
    by (simp add: getRepoIntegrations_def)
next
  show "no_empty_entry []"
    by (simp add: no_empty_entry_def)
qed

lemmas route_eval = getRepoIntegrations_def POST_def DELETE_def GET_def bad_request_def
  clean_up_def no_keys_def no_services_def get_member_def inherited_methods_def
  set_services_def no_empty_entry_def
  sample_parse_def sample_cookie_def js_def Let_def

theorem no_empty_entry_kept_witness:
  "getRepoIntegrations sample_parse (Some sample_cookie)
     = Inr [(js ''a/b'', \<lparr>vercel = Some (js ''p1'', js ''site''), supabase = None\<rparr>)]
   \<and> no_empty_entry [(js ''a/b'', \<lparr>vercel = Some (js ''p1'', js ''site''), supabase = None\<rparr>)]
   \<and> set_cookie (POST sample_parse (Some sample_cookie)
        (Some \<lparr>pb_repo = Given (js ''a/b''), pb_vercel = Null, pb_supabase = Undefined\<rparr>))
       = Some []
   \<and> set_cookie (POST sample_parse (Some sample_cookie)
        (Some \<lparr>pb_repo = Given (js ''c/d''), pb_vercel = Undefined,
               pb_supabase = Given (js ''ref'', js ''db'')\<rparr>))
       = Some [(js ''a/b'', \<lparr>vercel = Some (js ''p1'', js ''site''), supabase = None\<rparr>),
               (js ''c/d'', \<lparr>vercel = None, supabase = Some (js ''ref'', js ''db'')\<rparr>)]
   \<and> set_cookie (DELETE sample_parse (Some sample_cookie)
        (Some \<lparr>dl_repo = Given (js ''a/b''), dl_service = Given (js ''vercel'')\<rparr>))
       = Some []
   \<and> no_empty_entry []"
  using no_empty_entry_kept [of sample_parse "Some sample_cookie"
      "[(js ''a/b'', \<lparr>vercel = Some (js ''p1'', js ''site''), supabase = None\<rparr>)]"
      "Some \<lparr>pb_repo = Given (js ''a/b''), pb_vercel = Null, pb_supabase = Undefined\<rparr>"
      "[]"
      "Some \<lparr>dl_repo = Given (js ''a/b''), dl_service = Given (js ''vercel'')\<rparr>"
      "[]"]
  by (simp add: route_eval)




end
